theory Spec2Isabelle
  imports Complex_Main
begin

section \<open>Python and numpy primitives\<close>

text \<open>
  The scripts are Python over numpy arrays of float64. A finite float64 is modelled by the
  real it denotes (rounding is not modelled); the special values that a division by zero
  produces are explicit where the code can reach them (\<open>npfloat\<close> below). An exception is
  a value \<open>Inl e\<close> of a sum type.
\<close>

datatype py_error = ValueError | IndexError | OverflowError

text \<open>
  \<open>np.random.RandomState\<close> is library code: the generator takes it as a parameter.
  \<open>RandomState n\<close> is the generator state seeded with the integer \<open>n\<close> (numpy accepts
  \<open>0 \<le> n < 2^32\<close>), and \<open>uniform lo hi s\<close> is the value \<open>rng.uniform(lo, hi)\<close> draws
  in state \<open>s\<close> together with the state after the draw.
\<close>

record 's np_random =
  RandomState :: "nat \<Rightarrow> 's"
  uniform :: "real \<Rightarrow> real \<Rightarrow> 's \<Rightarrow> real \<times> 's"

section \<open>The fractal pattern generator\<close>

text \<open>
  \<^verbatim>\<open>
      pattern[i] = (pattern[i - step] + pattern[i + step]) / 2
      pattern[i] += rng.uniform(-scale, scale)
  \<close>
  The body of the inner loop: the state is the array and the generator. It runs only
  for \<open>step \<le> i\<close> and \<open>i + step < length\<close>, so both reads are in range.
\<close>

definition assign_midpoint :: "'s np_random \<Rightarrow> nat \<Rightarrow> real \<Rightarrow> nat \<Rightarrow> real list \<times> 's \<Rightarrow> real list \<times> 's" where
  "assign_midpoint np step scale i st =
     (let pattern = fst st;
          pattern1 = pattern[i := (pattern ! (i - step) + pattern ! (i + step)) / 2];
          (u, rng1) = uniform np (- scale) scale (snd st)
      in (pattern1[i := pattern1 ! i + u], rng1))"

text \<open>
  \<^verbatim>\<open>
      for i in range(step, length, step * 2):
          if i + step < length:
              ...
  \<close>
  The loop variable \<open>i\<close> starts at \<open>step\<close>. Inside \<open>while step > 0\<close> the stride
  \<open>step * 2\<close> is positive.
\<close>

function for_range :: "'s np_random \<Rightarrow> nat \<Rightarrow> nat \<Rightarrow> real \<Rightarrow> nat \<Rightarrow> real list \<times> 's \<Rightarrow> real list \<times> 's" where
  "for_range np step len scale i st =
     (if 0 < step \<and> i < len then
        for_range np step len scale (i + step * 2)
          (if i + step < len then assign_midpoint np step scale i st else st)
      else st)"
  by pat_completeness auto
termination
  by (relation "measure (\<lambda>(np, step, len, scale, i, st). len - i)") auto

text \<open>
  \<^verbatim>\<open>
      while step > 0:
          for i in range(step, length, step * 2): ...
          step //= 2
          scale *= 0.5
  \<close>
\<close>

function while_step :: "'s np_random \<Rightarrow> nat \<Rightarrow> nat \<Rightarrow> real \<Rightarrow> real list \<times> 's \<Rightarrow> real list \<times> 's" where
  "while_step np len step scale st =
     (if 0 < step then
        while_step np len (step div 2) (scale * 0.5) (for_range np step len scale step st)
      else st)"
  by pat_completeness auto
termination
  by (relation "measure (\<lambda>(np, len, step, scale, st). step)") auto

text \<open>
  Lines 18 to 32 of \<open>generate_fractal_pattern\<close> (tests/fractal_encoding/timing_test.py),
  repeated word for word in \<open>generate_audio_fractal_pattern\<close>
  (scripts/identity/sovereign_engine.py, lines 53 to 67): the array is filled from a seeded
  generator. \<open>np.zeros\<close> raises ValueError on a negative length, and \<open>pattern[0] = ...\<close>
  raises IndexError on an empty array (after the draw has been made).
\<close>

definition midpoint_fill :: "'s np_random \<Rightarrow> 's \<Rightarrow> int \<Rightarrow> py_error + real list" where
  "midpoint_fill np rng len =
     (if len < 0 then Inl ValueError
      else
        let pattern = replicate (nat len) (0::real);
            (u, rng1) = uniform np (- 1) 1 rng
        in if len = 0 then Inl IndexError
           else Inr (fst (while_step np (nat len) (nat len div 2) 1 (pattern[0 := u], rng1))))"

text \<open>
  \<^verbatim>\<open>rng = np.random.RandomState(hash(seed) % 2**32)\<close>
  \<open>hash\<close> is the builtin of the running interpreter: for a \<open>str\<close> or \<open>bytes\<close> seed its
  value depends on the hash secret the process drew at start-up. The model takes the
  process's \<open>hash\<close> as the parameter \<open>py_hash\<close>. Python's \<open>%\<close> with a positive modulus is
  never negative, as \<open>mod\<close> on \<open>int\<close>.
\<close>

definition generate_fractal_pattern :: "'s np_random \<Rightarrow> ('a \<Rightarrow> int) \<Rightarrow> 'a \<Rightarrow> int \<Rightarrow> py_error + real list" where
  "generate_fractal_pattern np py_hash seed len =
     midpoint_fill np (RandomState np (nat (py_hash seed mod 2 ^ 32))) len"

text \<open>
  \<^verbatim>\<open>rng = np.random.RandomState(int(fractal_seed[:8], 16) % (2**32))\<close>
  The builtin \<open>int(s, 16)\<close> is the parameter \<open>py_int16\<close>; it raises ValueError on a string
  that is no hexadecimal literal.
\<close>

definition generate_audio_fractal_pattern :: "'s np_random \<Rightarrow> (string \<Rightarrow> py_error + int) \<Rightarrow> string \<Rightarrow> int \<Rightarrow> py_error + real list" where
  "generate_audio_fractal_pattern np py_int16 fractal_seed len =
     (case py_int16 (take 8 fractal_seed) of
        Inl e \<Rightarrow> Inl e
      | Inr v \<Rightarrow> midpoint_fill np (RandomState np (nat (v mod 2 ^ 32))) len)"

declare for_range.simps [simp del] while_step.simps [simp del]

section \<open>The midpoint-displacement algorithm, as the specification words it\<close>

text \<open>
  The algorithm in the words of section 4.1 of the specification (steps 1 to 4): a second
  definition, to be compared with the code above. The indices visited at one level are \<open>step, step + 2 step, step + 4 step, \<dots>\<close>
  below \<open>length\<close>; only those with \<open>i + step < length\<close> are assigned.
\<close>

definition stepped_indices :: "nat \<Rightarrow> nat \<Rightarrow> nat \<Rightarrow> nat list" where
  "stepped_indices start stop stride = [i \<leftarrow> map (\<lambda>k. start + k * stride) [0..<stop]. i < stop]"

text \<open>
  "Set element \<open>i\<close> to the average of elements \<open>i - step\<close> and \<open>i + step\<close>, then add a
  uniform random perturbation in \<open>[-scale, scale]\<close>."
\<close>

definition spec_displace :: "'s np_random \<Rightarrow> nat \<Rightarrow> real \<Rightarrow> nat \<Rightarrow> real list \<times> 's \<Rightarrow> real list \<times> 's" where
  "spec_displace np step scale i st =
     (let (u, rng1) = uniform np (- scale) scale (snd st)
      in ((fst st)[i := (fst st ! (i - step) + fst st ! (i + step)) / 2 + u], rng1))"

text \<open>"While \<open>step > 0\<close>: [one level]; halve \<open>step\<close> (integer division); halve \<open>scale\<close>."\<close>

function spec_levels :: "'s np_random \<Rightarrow> nat \<Rightarrow> nat \<Rightarrow> real \<Rightarrow> real list \<times> 's \<Rightarrow> real list \<times> 's" where
  "spec_levels np n step scale st =
     (if step = 0 then st
      else spec_levels np n (step div 2) (scale / 2)
             (fold (spec_displace np step scale)
                [i \<leftarrow> stepped_indices step n (2 * step). i + step < n] st))"
  by pat_completeness auto
termination
  by (relation "measure (\<lambda>(np, n, step, scale, st). step)") auto

text \<open>
  "Allocate a sequence of \<open>length\<close> zeros; set element 0 to a uniform random value in
  \<open>[-1, 1]\<close>. Set \<open>step = length / 2\<close> (integer division), \<open>scale = 1.0\<close>. [\<dots>] Return the
  filled sequence."
\<close>

definition spec_generate :: "'s np_random \<Rightarrow> 's \<Rightarrow> nat \<Rightarrow> real list" where
  "spec_generate np rng n =
     (let (u, rng1) = uniform np (- 1) 1 rng
      in fst (spec_levels np n (n div 2) 1 ((replicate n 0)[0 := u], rng1)))"

declare spec_levels.simps [simp del]

section \<open>numpy values and Python builtins used by the encoder\<close>

text \<open>
  A float64 that may be special. Pattern and audio samples are finite (\<open>real\<close>); the
  quotient of the normalisation is the first value that can be NaN or infinite.
\<close>

datatype npfloat = Fin real | PInf | NInf | NaN

text \<open>
  \<open>x / m\<close> on float64 for finite \<open>x\<close> and \<open>m \<ge> 0\<close>: numpy divides by zero without
  raising (it warns), giving NaN for \<open>0 / 0\<close> and an infinity of the sign of \<open>x\<close> otherwise.
\<close>

definition np_true_divide :: "real \<Rightarrow> real \<Rightarrow> npfloat" where
  "np_true_divide x m =
     (if m \<noteq> 0 then Fin (x / m)
      else if x = 0 then NaN else if 0 < x then PInf else NInf)"

text \<open>\<open>x * k\<close> for a float64 \<open>x\<close> and a Python int \<open>k\<close>.\<close>

definition np_multiply_int :: "npfloat \<Rightarrow> int \<Rightarrow> npfloat" where
  "np_multiply_int x k =
     (case x of
        Fin r \<Rightarrow> Fin (r * of_int k)
      | NaN \<Rightarrow> NaN
      | PInf \<Rightarrow> (if k = 0 then NaN else if 0 < k then PInf else NInf)
      | NInf \<Rightarrow> (if k = 0 then NaN else if 0 < k then NInf else PInf))"

text \<open>
  \<open>int(x)\<close> truncates towards zero; it raises ValueError on NaN and OverflowError on an
  infinity.
\<close>

definition py_trunc :: "real \<Rightarrow> int" where
  "py_trunc r = (if 0 \<le> r then \<lfloor>r\<rfloor> else \<lceil>r\<rceil>)"

definition py_int :: "npfloat \<Rightarrow> py_error + int" where
  "py_int x =
     (case x of
        Fin r \<Rightarrow> Inr (py_trunc r)
      | NaN \<Rightarrow> Inl ValueError
      | PInf \<Rightarrow> Inl OverflowError
      | NInf \<Rightarrow> Inl OverflowError)"

text \<open>
  \<open>range(start, stop, stride)\<close> as the list it iterates over; a zero stride raises
  ValueError. The count of elements is Python's: \<open>max(0, (stop - start + stride - 1) // stride)\<close>
  for a positive stride, and symmetrically for a negative one.
\<close>

definition py_range :: "int \<Rightarrow> int \<Rightarrow> int \<Rightarrow> py_error + int list" where
  "py_range start stop stride =
     (if stride = 0 then Inl ValueError
      else if 0 < stride then
        Inr (map (\<lambda>k. start + int k * stride) [0..<nat ((stop - start + stride - 1) div stride)])
      else
        Inr (map (\<lambda>k. start + int k * stride) [0..<nat ((start - stop - stride - 1) div (- stride))]))"

text \<open>
  The slice \<open>xs[a:b]\<close> for \<open>0 \<le> a \<le> b\<close>, the only slices the encoder takes
  (\<open>a = i\<close>, \<open>b = i + chunk_size\<close> inside a loop that runs only for a positive chunk size).
\<close>

definition py_slice :: "'a list \<Rightarrow> int \<Rightarrow> int \<Rightarrow> 'a list" where
  "py_slice xs a b = take (nat (b - a)) (drop (nat a) xs)"

text \<open>\<open>np.max(np.abs(xs))\<close>: the reduction raises ValueError on an empty array.\<close>

definition np_max_abs :: "real list \<Rightarrow> py_error + real" where
  "np_max_abs xs = (if xs = [] then Inl ValueError else Inr (Max (set (map abs xs))))"

text \<open>
  The discrete Fourier transform and its inverse as numpy defines them
  (\<open>A\<^sub>k = \<Sum>\<^sub>m a\<^sub>m exp(-2\<pi>i mk/n)\<close>, the inverse with the opposite sign and a factor \<open>1/n\<close>),
  and \<open>np.linspace(start, stop, num)\<close> with its default end point.
\<close>

definition np_fft :: "complex list \<Rightarrow> complex list" where
  "np_fft a = map (\<lambda>k. \<Sum>m<length a. a ! m * cis (- 2 * pi * real m * real k / real (length a)))
                [0..<length a]"

definition np_ifft :: "complex list \<Rightarrow> complex list" where
  "np_ifft A = map (\<lambda>m. (\<Sum>k<length A. A ! k * cis (2 * pi * real m * real k / real (length A)))
                          / of_nat (length A))
                 [0..<length A]"

definition np_linspace :: "real \<Rightarrow> real \<Rightarrow> nat \<Rightarrow> real list" where
  "np_linspace start stop num =
     map (\<lambda>k. start + real k * ((stop - start) / real (num - 1))) [0..<num]"

section \<open>The phase-shift encoder\<close>

text \<open>
  \<^verbatim>\<open>
  class PhaseShiftEncoder:
      def __init__(self):
          self.default_strength = 0.01
          self.chunk_size = 2048
  \<close>
\<close>

record PhaseShiftEncoder =
  default_strength :: real
  chunk_size :: int

definition init :: PhaseShiftEncoder where
  "init = \<lparr>default_strength = 1 / 100, chunk_size = 2048\<rparr>"

text \<open>
  \<open>apply_phase_shift(chunk, shift_samples)\<close>: a zero shift returns the chunk itself;
  otherwise the spectrum keeps its magnitudes and gets a linear phase ramp.
  \<open>np.fft.fft\<close> raises ValueError on an empty array.
\<close>

definition apply_phase_shift :: "real list \<Rightarrow> int \<Rightarrow> py_error + real list" where
  "apply_phase_shift chunk shift_samples =
     (if shift_samples = 0 then Inr chunk
      else if chunk = [] then Inl ValueError
      else
        let freq_domain = np_fft (map complex_of_real chunk);
            angles = map Arg freq_domain;
            phase_shift = np_linspace 0 (of_int shift_samples * 2 * pi / real (length chunk))
                            (length chunk);
            new_angles = map2 (+) angles phase_shift;
            freq_domain_shifted =
              map2 (\<lambda>m e. complex_of_real m * e) (map cmod freq_domain) (map cis new_angles)
        in Inr (map Re (np_ifft freq_domain_shifted)))"

text \<open>
  The body of the chunk loop, up to the value that is appended to \<open>encoded_audio\<close>:
  \<^verbatim>\<open>
      chunk = audio_data[i:i + self.chunk_size]
      if len(chunk) == self.chunk_size:
          pattern_idx = (i // self.chunk_size) % len(fractal_norm)
          shift_samples = int(fractal_norm[pattern_idx] * max_shift_samples)
          chunk = self.apply_phase_shift(chunk, shift_samples)
  \<close>
\<close>

definition encode_chunk :: "int \<Rightarrow> real list \<Rightarrow> npfloat list \<Rightarrow> int \<Rightarrow> int \<Rightarrow> py_error + real list" where
  "encode_chunk chunk_size' audio_data fractal_norm max_shift_samples i =
     (let chunk = py_slice audio_data i (i + chunk_size') in
      if int (length chunk) = chunk_size' then
        let pattern_idx = (i div chunk_size') mod int (length fractal_norm) in
        case py_int (np_multiply_int (fractal_norm ! nat pattern_idx) max_shift_samples) of
          Inl e \<Rightarrow> Inl e
        | Inr shift_samples \<Rightarrow> apply_phase_shift chunk shift_samples
      else Inr chunk)"

text \<open>
  \<^verbatim>\<open>
      for i in range(0, len(audio_data), self.chunk_size):
          ...
          encoded_audio.extend(chunk)
  \<close>
  over the offsets of the range, stopping at the first exception.
\<close>

fun encode_loop :: "int \<Rightarrow> real list \<Rightarrow> npfloat list \<Rightarrow> int \<Rightarrow> int list \<Rightarrow> real list \<Rightarrow> py_error + real list" where
  "encode_loop chunk_size' audio_data fractal_norm max_shift_samples [] encoded_audio =
     Inr encoded_audio"
| "encode_loop chunk_size' audio_data fractal_norm max_shift_samples (i # offsets) encoded_audio =
     (case encode_chunk chunk_size' audio_data fractal_norm max_shift_samples i of
        Inl e \<Rightarrow> Inl e
      | Inr chunk \<Rightarrow>
          encode_loop chunk_size' audio_data fractal_norm max_shift_samples offsets
            (encoded_audio @ chunk))"

text \<open>
  \<open>encode_phase_fractal(audio, fractal_pattern, max_shift_ms, chunk_size=2048)\<close>
  (tests/fractal_encoding/tuning_suite_v2.py). The statements run in the source's order:
  the shift bound, the normalisation (which needs a non-empty pattern), the range (which
  needs a non-zero chunk size), the loop.
\<close>

definition encode_phase_fractal :: "real list \<Rightarrow> real list \<Rightarrow> real \<Rightarrow> int \<Rightarrow> py_error + real list" where
  "encode_phase_fractal audio fractal_pattern max_shift_ms chunk_size' =
     (let sample_rate = 44100;
          max_shift_samples = py_trunc ((max_shift_ms / 1000) * sample_rate)
      in case np_max_abs fractal_pattern of
           Inl e \<Rightarrow> Inl e
         | Inr m \<Rightarrow>
             let fractal_norm = map (\<lambda>x. np_true_divide x m) fractal_pattern in
             case py_range 0 (int (length audio)) chunk_size' of
               Inl e \<Rightarrow> Inl e
             | Inr offsets \<Rightarrow>
                 encode_loop chunk_size' audio fractal_norm max_shift_samples offsets [])"

text \<open>
  \<open>PhaseShiftEncoder.encode_audio(self, audio_data, fractal_pattern, strength_ms=None)\<close>
  (scripts/fractal_encoding/phase_shift_encoder.py): the same statements, with the chunk
  size read from \<open>self\<close> and the strength defaulting to \<open>self.default_strength\<close>.
\<close>

definition encode_audio :: "PhaseShiftEncoder \<Rightarrow> real list \<Rightarrow> real list \<Rightarrow> real option \<Rightarrow> py_error + real list" where
  "encode_audio self audio_data fractal_pattern strength_ms_opt =
     (let strength_ms = (case strength_ms_opt of None \<Rightarrow> default_strength self | Some s \<Rightarrow> s);
          sample_rate = 44100;
          max_shift_samples = py_trunc ((strength_ms / 1000) * sample_rate)
      in case np_max_abs fractal_pattern of
           Inl e \<Rightarrow> Inl e
         | Inr m \<Rightarrow>
             let fractal_norm = map (\<lambda>x. np_true_divide x m) fractal_pattern in
             case py_range 0 (int (length audio_data)) (chunk_size self) of
               Inl e \<Rightarrow> Inl e
             | Inr offsets \<Rightarrow>
                 encode_loop (chunk_size self) audio_data fractal_norm max_shift_samples offsets [])"

section \<open>Verification of an encoding\<close>

text \<open>
  \<open>np.corrcoef(x, y)[0, 1]\<close> for two one-dimensional arrays, as numpy computes it. The two
  arrays are stacked as the rows of one matrix, which raises ValueError when their lengths
  differ. Otherwise the covariance matrix (with divisor \<open>n - 1\<close>) is divided by the two
  standard deviations and clipped to \<open>[-1, 1]\<close>. With fewer than two samples or a constant
  array a division \<open>0 / 0\<close> occurs and the entry is NaN (numpy warns and does not raise).
\<close>

definition np_mean :: "real list \<Rightarrow> real" where
  "np_mean xs = sum_list xs / real (length xs)"

definition np_cov :: "real list \<Rightarrow> real list \<Rightarrow> real" where
  "np_cov xs ys =
     (\<Sum>(x, y)\<leftarrow>zip xs ys. (x - np_mean xs) * (y - np_mean ys)) / real (length xs - 1)"

definition np_clip :: "real \<Rightarrow> real \<Rightarrow> real \<Rightarrow> real" where
  "np_clip x lo hi = min hi (max lo x)"

definition np_corrcoef_01 :: "real list \<Rightarrow> real list \<Rightarrow> py_error + npfloat" where
  "np_corrcoef_01 xs ys =
     (if length xs \<noteq> length ys then Inl ValueError
      else if length xs < 2 \<or> np_cov xs xs = 0 \<or> np_cov ys ys = 0 then Inr NaN
      else Inr (Fin (np_clip (np_cov xs ys / sqrt (np_cov xs xs) / sqrt (np_cov ys ys)) (- 1) 1)))"

text \<open>\<open>x > t\<close> for a float64 \<open>x\<close> and a finite \<open>t\<close>: every comparison with NaN is false.\<close>

definition np_greater :: "npfloat \<Rightarrow> real \<Rightarrow> bool" where
  "np_greater x t = (case x of Fin r \<Rightarrow> t < r | PInf \<Rightarrow> True | NInf \<Rightarrow> False | NaN \<Rightarrow> False)"

text \<open>The dictionary that \<open>verify_encoding\<close> returns.\<close>

record DetectionResult =
  correlation :: npfloat
  audio_preserved :: bool
  encoding_detected :: bool
  meets_standards :: bool

text \<open>
  \<^verbatim>\<open>
  def detect_fractal_pattern(self, audio_data):
      """Detect if fractal encoding is present"""
      # Simplified detection - real implementation would use pattern matching
      return True  # Our tests showed 96.7%+ detection rate
  \<close>
\<close>

definition detect_fractal_pattern :: "PhaseShiftEncoder \<Rightarrow> real list \<Rightarrow> bool" where
  "detect_fractal_pattern self audio_data = True"

text \<open>\<open>verify_encoding(self, original, encoded, threshold=0.99)\<close>.\<close>

definition verify_encoding :: "PhaseShiftEncoder \<Rightarrow> real list \<Rightarrow> real list \<Rightarrow> real \<Rightarrow> py_error + DetectionResult" where
  "verify_encoding self original encoded threshold =
     (case np_corrcoef_01 original encoded of
        Inl e \<Rightarrow> Inl e
      | Inr corr \<Rightarrow>
          let audio_preserved' = np_greater corr threshold;
              encoding_detected' = detect_fractal_pattern self encoded
          in Inr \<lparr>correlation = corr,
                  audio_preserved = audio_preserved',
                  encoding_detected = encoding_detected',
                  meets_standards = (audio_preserved' \<and> encoding_detected')\<rparr>)"


section \<open>The generator: loop invariants\<close>

lemma for_range_stop:
  "\<not> (0 < step \<and> i < len) \<Longrightarrow> for_range np step len scale i st = st"
  by (subst for_range.simps) (simp only: if_False)

lemma for_range_step:
  "0 < step \<and> i < len \<Longrightarrow>
   for_range np step len scale i st =
     for_range np step len scale (i + step * 2)
       (if i + step < len then assign_midpoint np step scale i st else st)"
  by (subst for_range.simps) (simp only: simp_thms if_True)

lemma for_range_invariant:
  assumes step: "\<And>i st. step \<le> i \<Longrightarrow> i + step < len \<Longrightarrow> P st \<Longrightarrow> P (assign_midpoint np step scale i st)"
    and init: "P st" and i: "step \<le> i"
  shows "P (for_range np step len scale i st)"
  using init i
proof (induction "len - i" arbitrary: i st rule: less_induct)
  case less
  show ?case
  proof (cases "0 < step \<and> i < len")
    case False
    show ?thesis
      unfolding for_range_stop[OF False] by (rule less.prems(1))
  next
    case True
    let ?st = "if i + step < len then assign_midpoint np step scale i st else st"
    have P: "P ?st"
    proof (cases "i + step < len")
      case True
      have "P (assign_midpoint np step scale i st)"
        using less.prems(2) True less.prems(1) by (rule step)
      then show ?thesis unfolding if_P[OF True] .
    next
      case False
      show ?thesis unfolding if_not_P[OF False] by (rule less.prems(1))
    qed
    have le: "step \<le> i + step * 2" by simp
    have dec: "len - (i + step * 2) < len - i" using True by arith
    show ?thesis
      unfolding for_range_step[OF True] by (rule less.hyps[OF dec P le])
  qed
qed

lemma while_step_stop: "\<not> 0 < step \<Longrightarrow> while_step np len step scale st = st"
  by (subst while_step.simps) (simp only: if_False)

lemma while_step_step:
  "0 < step \<Longrightarrow> while_step np len step scale st =
     while_step np len (step div 2) (scale * 0.5) (for_range np step len scale step st)"
  by (subst while_step.simps) (simp only: if_True)

lemma while_step_invariant:
  assumes step: "\<And>step scale i st. 0 < step \<Longrightarrow> step \<le> i \<Longrightarrow> i + step < len \<Longrightarrow> P st \<Longrightarrow> P (assign_midpoint np step scale i st)"
    and init: "P st"
  shows "P (while_step np len step scale st)"
  using init
proof (induction step arbitrary: scale st rule: less_induct)
  case (less step)
  show ?case
  proof (cases "0 < step")
    case False
    show ?thesis unfolding while_step_stop[OF False] by (rule less.prems)
  next
    case True
    have "P (for_range np step len scale step st)"
      by (rule for_range_invariant[where P=P, OF step[OF True] less.prems order_refl])
    moreover have "step div 2 < step" using True by simp
    ultimately show ?thesis
      unfolding while_step_step[OF True] by (rule less.IH[rotated])
  qed
qed

lemma assign_midpoint_length:
  "length (fst (assign_midpoint np step scale i st)) = length (fst st)"
  by (simp add: assign_midpoint_def Let_def split: prod.split)

lemma assign_midpoint_other:
  "j \<noteq> i \<Longrightarrow> fst (assign_midpoint np step scale i st) ! j = fst st ! j"
  by (simp add: assign_midpoint_def Let_def split: prod.split)

lemma while_step_last_zero:
  assumes "length (fst st) = len" and "fst st ! (len - 1) = 0"
  shows "length (fst (while_step np len step scale st)) = len \<and>
         fst (while_step np len step scale st) ! (len - 1) = 0"
proof (rule while_step_invariant[where P = "\<lambda>st. length (fst st) = len \<and> fst st ! (len - 1) = 0"], goal_cases)
  case (1 step scale i st)
  then have "len - 1 \<noteq> i" by arith
  with 1 show ?case
    by (simp add: assign_midpoint_length assign_midpoint_other)
next
  case 2
  show ?case using assms by simp
qed

lemma midpoint_fill_last_zero:
  assumes "2 \<le> len"
  shows "\<exists>p. midpoint_fill np rng len = Inr p \<and> length p = nat len \<and> p ! (nat len - 1) = 0"
proof -
  obtain u rng1 where U: "uniform np (- 1) 1 rng = (u, rng1)"
    by (cases "uniform np (- 1) 1 rng")
  let ?st = "((replicate (nat len) (0::real))[0 := u], rng1)"
  have "length (fst ?st) = nat len" by simp
  moreover have "fst ?st ! (nat len - 1) = 0" using assms by simp
  ultimately have "length (fst (while_step np (nat len) (nat len div 2) 1 ?st)) = nat len \<and>
         fst (while_step np (nat len) (nat len div 2) 1 ?st) ! (nat len - 1) = 0"
    by (rule while_step_last_zero)
  moreover have "midpoint_fill np rng len = Inr (fst (while_step np (nat len) (nat len div 2) 1 ?st))"
    using assms U by (simp add: midpoint_fill_def)
  ultimately show ?thesis by simp
qed

lemma midpoint_fill_2:
  "midpoint_fill np rng 2 = Inr [fst (uniform np (- 1) 1 rng), 0]"
proof -
  obtain u rng1 where U: "uniform np (- 1) 1 rng = (u, rng1)"
    by (cases "uniform np (- 1) 1 rng")
  let ?S = "([u, 0::real], rng1)"
  have r: "replicate 2 (0::real) = [0, 0]" by (simp add: numeral_2_eq_2)
  have a: "for_range np 1 2 1 1 ?S =
        for_range np 1 2 1 (1 + 1 * 2) (if 1 + 1 < (2::nat) then assign_midpoint np 1 1 1 ?S else ?S)"
    by (rule for_range_step) simp
  have b: "for_range np 1 2 1 (1 + 1 * 2) ?S = ?S" by (rule for_range_stop) simp
  have f: "for_range np 1 2 1 1 ?S = ?S" unfolding a using b by simp
  have c: "while_step np 2 1 1 ?S = while_step np 2 (1 div 2) (1 * 0.5) (for_range np 1 2 1 1 ?S)"
    by (rule while_step_step) simp
  have d: "while_step np 2 (1 div 2) (1 * 0.5) ?S = ?S" by (rule while_step_stop) simp
  have "while_step np 2 1 1 ?S = ?S" unfolding c f by (rule d)
  then show ?thesis using U by (simp add: midpoint_fill_def r)
qed

section \<open>The code follows the algorithm of the specification\<close>

lemma assign_midpoint_eq_spec_displace:
  "i < length (fst st) \<Longrightarrow> assign_midpoint np step scale i st = spec_displace np step scale i st"
  by (cases st) (simp add: assign_midpoint_def spec_displace_def Let_def split: prod.split)

lemma fold_assign_midpoint_eq_spec:
  "length (fst st) = len \<Longrightarrow> \<forall>i\<in>set xs. i < len \<Longrightarrow>
   fold (assign_midpoint np step scale) xs st = fold (spec_displace np step scale) xs st"
proof (induction xs arbitrary: st)
  case Nil
  show ?case by simp
next
  case (Cons x xs)
  have "length (fst (assign_midpoint np step scale x st)) = len"
    using Cons.prems(1) by (simp add: assign_midpoint_length)
  moreover have "\<forall>i\<in>set xs. i < len" using Cons.prems(2) by simp
  ultimately have "fold (assign_midpoint np step scale) xs (assign_midpoint np step scale x st) =
      fold (spec_displace np step scale) xs (assign_midpoint np step scale x st)"
    by (rule Cons.IH)
  moreover have "assign_midpoint np step scale x st = spec_displace np step scale x st"
    using Cons.prems by (intro assign_midpoint_eq_spec_displace) simp
  ultimately show ?case by simp
qed

lemma fold_filter_cond:
  "fold (\<lambda>i st. if P i then f i st else st) xs st = fold f (filter P xs) st"
  by (induction xs arbitrary: st) simp_all

lemma stepped_from_empty:
  "stop \<le> start \<Longrightarrow> [i \<leftarrow> map (\<lambda>k. start + k * stride) [0..<m]. i < stop] = []"
  by (simp add: filter_empty_conv)

lemma stepped_from_Suc:
  "[i \<leftarrow> map (\<lambda>k. start + k * stride) [0..<Suc m]. i < stop] =
     (if start < stop then [start] else []) @
     [i \<leftarrow> map (\<lambda>k. (start + stride) + k * stride) [0..<m]. i < stop]"
proof -
  have "[0..<Suc m] = 0 # map Suc [0..<m]"
    by (simp add: upt_conv_Cons map_Suc_upt del: upt_Suc)
  then show ?thesis by (simp add: o_def add.assoc del: upt_Suc)
qed

lemma for_range_fold:
  assumes "0 < step" and "len \<le> i + m"
  shows "for_range np step len scale i st =
         fold (\<lambda>i st. if i + step < len then assign_midpoint np step scale i st else st)
           [j \<leftarrow> map (\<lambda>k. i + k * (step * 2)) [0..<m]. j < len] st"
  using assms(2)
proof (induction m arbitrary: i st)
  case 0
  then have "\<not> (0 < step \<and> i < len)" by simp
  then show ?case by (simp add: for_range_stop)
next
  case (Suc m)
  show ?case
  proof (cases "i < len")
    case False
    then have "\<not> (0 < step \<and> i < len)" by simp
    then have "for_range np step len scale i st = st" by (rule for_range_stop)
    moreover have "[j \<leftarrow> map (\<lambda>k. i + k * (step * 2)) [0..<Suc m]. j < len] = []"
      using False by (intro stepped_from_empty) simp
    ultimately show ?thesis by simp
  next
    case True
    let ?st = "if i + step < len then assign_midpoint np step scale i st else st"
    have "len \<le> (i + step * 2) + m" using Suc.prems assms(1) by simp
    then have "for_range np step len scale (i + step * 2) ?st =
         fold (\<lambda>i st. if i + step < len then assign_midpoint np step scale i st else st)
           [j \<leftarrow> map (\<lambda>k. (i + step * 2) + k * (step * 2)) [0..<m]. j < len] ?st"
      by (rule Suc.IH)
    moreover have "for_range np step len scale i st = for_range np step len scale (i + step * 2) ?st"
      using True assms(1) by (intro for_range_step) simp
    ultimately show ?thesis
      unfolding stepped_from_Suc using True by simp
  qed
qed

lemma for_range_eq_spec:
  assumes "0 < step" and "length (fst st) = len"
  shows "for_range np step len scale step st =
         fold (spec_displace np step scale)
           [i \<leftarrow> stepped_indices step len (2 * step). i + step < len] st"
proof -
  have "for_range np step len scale step st =
         fold (\<lambda>i st. if i + step < len then assign_midpoint np step scale i st else st)
           [j \<leftarrow> map (\<lambda>k. step + k * (step * 2)) [0..<len]. j < len] st"
    using assms(1) by (intro for_range_fold) simp_all
  also have "\<dots> = fold (assign_midpoint np step scale)
           [i \<leftarrow> [j \<leftarrow> map (\<lambda>k. step + k * (step * 2)) [0..<len]. j < len]. i + step < len] st"
    by (rule fold_filter_cond)
  also have "\<dots> = fold (spec_displace np step scale)
           [i \<leftarrow> [j \<leftarrow> map (\<lambda>k. step + k * (step * 2)) [0..<len]. j < len]. i + step < len] st"
    using assms(2) by (rule fold_assign_midpoint_eq_spec) simp
  finally show ?thesis by (simp add: stepped_indices_def mult.commute)
qed

lemma for_range_length:
  "step \<le> i \<Longrightarrow> length (fst (for_range np step len scale i st)) = length (fst st)"
  by (rule for_range_invariant[where P = "\<lambda>s. length (fst s) = length (fst st)"])
     (simp_all add: assign_midpoint_length)


lemma while_step_eq_spec:
  "length (fst st) = len \<Longrightarrow>
   while_step np len step scale st = spec_levels np len step scale st"
proof (induction step arbitrary: scale st rule: less_induct)
  case (less step)
  show ?case
  proof (cases "0 < step")
    case False
    then show ?thesis by (simp add: while_step_stop spec_levels.simps)
  next
    case True
    then have "step div 2 < step" by simp
    moreover have "length (fst (for_range np step len scale step st)) = len"
      using less.prems by (simp add: for_range_length)
    ultimately have "while_step np len (step div 2) (scale * 0.5) (for_range np step len scale step st) =
          spec_levels np len (step div 2) (scale * 0.5) (for_range np step len scale step st)"
      by (rule less.IH)
    then show ?thesis
      using True less.prems
      by (subst spec_levels.simps) (simp add: while_step_step for_range_eq_spec)
  qed
qed

lemma midpoint_fill_eq_spec:
  "1 \<le> len \<Longrightarrow> midpoint_fill np rng len = Inr (spec_generate np rng (nat len))"
  by (simp add: midpoint_fill_def spec_generate_def while_step_eq_spec split: prod.split)

section \<open>The encoder: ranges and slices\<close>

lemma py_range_pos:
  "0 < c \<Longrightarrow> py_range 0 (int n) (int c) = Inr (map (\<lambda>k. int (k * c)) [0..<(n + c - 1) div c])"
proof -
  assume c: "0 < c"
  have "int n - 0 + int c - 1 = int (n + c - 1)" using c by (simp add: of_nat_diff)
  then have "(int n - 0 + int c - 1) div int c = int ((n + c - 1) div c)"
    by (simp only: zdiv_int)
  then have "nat ((int n - 0 + int c - 1) div int c) = (n + c - 1) div c" by (simp only: nat_int)
  then show ?thesis using c by (simp add: py_range_def del: of_nat_diff)
qed

lemma py_slice_nat:
  "py_slice xs (int a) (int a + int c) = take c (drop a xs)"
  by (simp add: py_slice_def)

lemma concat_slices:
  "length xs \<le> a + m * c \<Longrightarrow>
   concat (map (\<lambda>k. take c (drop (a + k * c) xs)) [0..<m]) = drop a xs"
proof (induction m arbitrary: a)
  case 0
  then show ?case by simp
next
  case (Suc m)
  have "[0..<Suc m] = 0 # map Suc [0..<m]"
    by (simp add: upt_conv_Cons map_Suc_upt del: upt_Suc)
  then have "concat (map (\<lambda>k. take c (drop (a + k * c) xs)) [0..<Suc m]) =
        take c (drop a xs) @ concat (map (\<lambda>k. take c (drop ((a + c) + k * c) xs)) [0..<m])"
    by (simp add: o_def ac_simps del: upt_Suc)
  also have "concat (map (\<lambda>k. take c (drop ((a + c) + k * c) xs)) [0..<m]) = drop (a + c) xs"
    using Suc.prems by (intro Suc.IH) simp
  also have "take c (drop a xs) @ drop (a + c) xs = drop a xs"
    by (metis append_take_drop_id drop_drop add.commute)
  finally show ?case .
qed

lemma ceil_div_covers: "0 < c \<Longrightarrow> (n::nat) \<le> ((n + c - 1) div c) * c"
proof -
  assume c: "0 < c"
  have "n + c - 1 < c + c * ((n + c - 1) div c)"
    using c by (rule dividend_less_times_div)
  then have "n < 1 + c * ((n + c - 1) div c)" using c by linarith
  then show ?thesis by (simp add: mult.commute)
qed

section \<open>The encoder: one chunk\<close>

lemma np_fft_length: "length (np_fft a) = length a"
  by (simp add: np_fft_def)

lemma np_ifft_length: "length (np_ifft a) = length a"
  by (simp add: np_ifft_def)

lemma np_linspace_length: "length (np_linspace a b n) = n"
  by (simp add: np_linspace_def)

lemma apply_phase_shift_length:
  assumes "chunk \<noteq> [] \<or> shift_samples = 0"
  shows "\<exists>c. apply_phase_shift chunk shift_samples = Inr c \<and> length c = length chunk"
  using assms
  by (auto simp: apply_phase_shift_def Let_def np_fft_length np_ifft_length np_linspace_length)

lemma apply_phase_shift_zero: "apply_phase_shift chunk 0 = Inr chunk"
  by (simp add: apply_phase_shift_def)

lemma np_max_abs_pos:
  assumes "\<exists>x\<in>set xs. x \<noteq> 0"
  shows "\<exists>m. np_max_abs xs = Inr m \<and> 0 < m"
proof -
  from assms obtain x where x: "x \<in> set xs" "x \<noteq> 0" by blast
  then have ne: "xs \<noteq> []" by auto
  have "\<bar>x\<bar> \<le> Max (set (map abs xs))" using x(1) by (intro Max_ge) auto
  moreover have "0 < \<bar>x\<bar>" using x(2) by simp
  ultimately have "0 < Max (set (map abs xs))" by linarith
  then show ?thesis using ne by (simp add: np_max_abs_def)
qed

lemma np_max_abs_zero:
  assumes "xs \<noteq> []" and "\<forall>x\<in>set xs. x = 0"
  shows "np_max_abs xs = Inr 0"
proof -
  have "set (map abs xs) = {0}" using assms by (cases xs) auto
  then show ?thesis using assms(1) by (simp add: np_max_abs_def)
qed

lemma py_trunc_zero: "py_trunc 0 = 0"
  by (simp add: py_trunc_def)

text \<open>What one pass of the loop body appends, for a finite normalised pattern.\<close>

lemma pattern_idx_in_range:
  "fractal_norm \<noteq> [] \<Longrightarrow> nat ((i div cs) mod int (length fractal_norm)) < length fractal_norm"
proof -
  assume "fractal_norm \<noteq> []"
  then have "0 < int (length fractal_norm)" by simp
  then have "0 \<le> (i div cs) mod int (length fractal_norm)"
      "(i div cs) mod int (length fractal_norm) < int (length fractal_norm)"
    by (rule pos_mod_sign, rule pos_mod_bound)
  then show ?thesis by linarith
qed

lemma encode_chunk_partial:
  assumes "length (take c (drop (k * c) audio)) \<noteq> c"
  shows "encode_chunk (int c) audio fractal_norm mss (int (k * c)) = Inr (take c (drop (k * c) audio))"
proof -
  define chunk where "chunk = take c (drop (k * c) audio)"
  have sl: "py_slice audio (int (k * c)) (int (k * c) + int c) = chunk"
    unfolding chunk_def by (rule py_slice_nat)
  have "length chunk \<noteq> c" using assms unfolding chunk_def .
  then have "encode_chunk (int c) audio fractal_norm mss (int (k * c)) = Inr chunk"
    unfolding encode_chunk_def Let_def sl by simp
  then show ?thesis unfolding chunk_def .
qed

lemma encode_chunk_finite:
  assumes c: "0 < c" and ne: "fractal_norm \<noteq> []"
    and fin: "\<forall>v\<in>set fractal_norm. \<exists>r. v = Fin r"
  shows "\<exists>chunk. encode_chunk (int c) audio fractal_norm mss (int (k * c)) = Inr chunk \<and>
           length chunk = length (take c (drop (k * c) audio))"
proof (cases "length (take c (drop (k * c) audio)) = c")
  case False
  then show ?thesis using encode_chunk_partial[OF False] by simp
next
  case True
  define chunk where "chunk = take c (drop (k * c) audio)"
  have sl: "py_slice audio (int (k * c)) (int (k * c) + int c) = chunk"
    unfolding chunk_def by (rule py_slice_nat)
  have len: "length chunk = c" using True unfolding chunk_def .
  define idx where "idx = nat ((int (k * c) div int c) mod int (length fractal_norm))"
  have "idx < length fractal_norm" unfolding idx_def using ne by (rule pattern_idx_in_range)
  then have "fractal_norm ! idx \<in> set fractal_norm" by (rule nth_mem)
  then obtain r where r: "fractal_norm ! idx = Fin r" using fin by blast
  have "chunk \<noteq> []" using len c by auto
  then obtain ch where ch: "apply_phase_shift chunk (py_trunc (r * of_int mss)) = Inr ch"
      "length ch = length chunk"
    using apply_phase_shift_length[of chunk] by blast
  have "encode_chunk (int c) audio fractal_norm mss (int (k * c)) = Inr ch"
    unfolding encode_chunk_def Let_def sl idx_def[symmetric] r
    using len ch(1) by (simp add: py_int_def np_multiply_int_def)
  then show ?thesis using ch(2) unfolding chunk_def by simp
qed

lemma encode_chunk_no_shift:
  assumes ne: "fractal_norm \<noteq> []"
    and fin: "\<forall>v\<in>set fractal_norm. \<exists>r. v = Fin r"
  shows "encode_chunk (int c) audio fractal_norm 0 (int (k * c)) = Inr (take c (drop (k * c) audio))"
proof (cases "length (take c (drop (k * c) audio)) = c")
  case False
  then show ?thesis by (rule encode_chunk_partial)
next
  case True
  define chunk where "chunk = take c (drop (k * c) audio)"
  have sl: "py_slice audio (int (k * c)) (int (k * c) + int c) = chunk"
    unfolding chunk_def by (rule py_slice_nat)
  have len: "length chunk = c" using True unfolding chunk_def .
  define idx where "idx = nat ((int (k * c) div int c) mod int (length fractal_norm))"
  have "idx < length fractal_norm" unfolding idx_def using ne by (rule pattern_idx_in_range)
  then have "fractal_norm ! idx \<in> set fractal_norm" by (rule nth_mem)
  then obtain r where r: "fractal_norm ! idx = Fin r" using fin by blast
  have "encode_chunk (int c) audio fractal_norm 0 (int (k * c)) = Inr chunk"
    unfolding encode_chunk_def Let_def sl idx_def[symmetric] r
    using len by (simp add: py_int_def np_multiply_int_def py_trunc_zero apply_phase_shift_zero)
  then show ?thesis unfolding chunk_def .
qed


lemma encode_loop_chunks:
  "list_all2 (\<lambda>i chunk. encode_chunk cs audio fractal_norm mss i = Inr chunk) offsets chunks \<Longrightarrow>
   encode_loop cs audio fractal_norm mss offsets acc = Inr (acc @ concat chunks)"
  by (induction offsets chunks arbitrary: acc rule: list_all2_induct) simp_all

section \<open>The encoder: the whole loop\<close>

lemma chunks_exist:
  assumes c: "0 < c" and ne: "fractal_norm \<noteq> []"
    and fin: "\<forall>v\<in>set fractal_norm. \<exists>r. v = Fin r"
  shows "\<exists>chunks. list_all2 (\<lambda>k chunk.
            encode_chunk (int c) audio fractal_norm mss (int (k * c)) = Inr chunk \<and>
            length chunk = length (take c (drop (k * c) audio))) ks chunks"
proof (induction ks)
  case Nil
  show ?case by simp
next
  case (Cons k ks)
  then obtain chunks where "list_all2 (\<lambda>k chunk.
            encode_chunk (int c) audio fractal_norm mss (int (k * c)) = Inr chunk \<and>
            length chunk = length (take c (drop (k * c) audio))) ks chunks" by blast
  moreover obtain chunk where
    "encode_chunk (int c) audio fractal_norm mss (int (k * c)) = Inr chunk \<and>
     length chunk = length (take c (drop (k * c) audio))"
    using encode_chunk_finite[OF c ne fin] by blast
  ultimately have "list_all2 (\<lambda>k chunk.
            encode_chunk (int c) audio fractal_norm mss (int (k * c)) = Inr chunk \<and>
            length chunk = length (take c (drop (k * c) audio))) (k # ks) (chunk # chunks)"
    by simp
  then show ?case by blast
qed



lemma encode_loop_finite:
  assumes c: "0 < c" and ne: "fractal_norm \<noteq> []"
    and fin: "\<forall>v\<in>set fractal_norm. \<exists>r. v = Fin r"
  shows "\<exists>chunks.
           encode_loop (int c) audio fractal_norm mss (map (\<lambda>k. int (k * c)) ks) [] =
             Inr (concat chunks) \<and>
           list_all2 (\<lambda>k chunk.
             encode_chunk (int c) audio fractal_norm mss (int (k * c)) = Inr chunk \<and>
             length chunk = length (take c (drop (k * c) audio))) ks chunks"
proof -
  obtain chunks where chunks: "list_all2 (\<lambda>k chunk.
            encode_chunk (int c) audio fractal_norm mss (int (k * c)) = Inr chunk \<and>
            length chunk = length (take c (drop (k * c) audio))) ks chunks"
    using chunks_exist[OF c ne fin] by blast
  then have "list_all2 (\<lambda>k chunk.
            encode_chunk (int c) audio fractal_norm mss (int (k * c)) = Inr chunk) ks chunks"
    by (rule list_all2_mono) simp
  then have "list_all2 (\<lambda>i chunk. encode_chunk (int c) audio fractal_norm mss i = Inr chunk)
               (map (\<lambda>k. int (k * c)) ks) chunks"
    by (simp add: list_all2_map1)
  then have "encode_loop (int c) audio fractal_norm mss (map (\<lambda>k. int (k * c)) ks) [] =
             Inr ([] @ concat chunks)"
    by (rule encode_loop_chunks)
  with chunks show ?thesis by auto
qed

lemma encode_audio_as_encode_phase_fractal:
  "encode_audio self audio_data fractal_pattern strength_ms_opt =
   encode_phase_fractal audio_data fractal_pattern
     (case strength_ms_opt of None \<Rightarrow> default_strength self | Some s \<Rightarrow> s) (chunk_size self)"
  by (simp add: encode_audio_def encode_phase_fractal_def)

lemma normalised_finite:
  "m \<noteq> 0 \<Longrightarrow> \<forall>v\<in>set (map (\<lambda>x. np_true_divide x m) fractal_pattern). \<exists>r. v = Fin r"
  by (simp add: np_true_divide_def)


lemma encode_phase_fractal_unfold:
  assumes c: "0 < c" and nz: "\<exists>x\<in>set fractal_pattern. x \<noteq> 0"
  shows "\<exists>m. 0 < m \<and>
           encode_phase_fractal audio fractal_pattern max_shift_ms (int c) =
           encode_loop (int c) audio (map (\<lambda>x. np_true_divide x m) fractal_pattern)
             (py_trunc ((max_shift_ms / 1000) * 44100))
             (map (\<lambda>k. int (k * c)) [0..<(length audio + c - 1) div c]) []"
proof -
  obtain m where m: "np_max_abs fractal_pattern = Inr m" "0 < m"
    using np_max_abs_pos[OF nz] by blast
  have "encode_phase_fractal audio fractal_pattern max_shift_ms (int c) =
           encode_loop (int c) audio (map (\<lambda>x. np_true_divide x m) fractal_pattern)
             (py_trunc ((max_shift_ms / 1000) * 44100))
             (map (\<lambda>k. int (k * c)) [0..<(length audio + c - 1) div c]) []"
    unfolding encode_phase_fractal_def Let_def m(1) py_range_pos[OF c] sum.case ..
  with m(2) show ?thesis by blast
qed

lemma encode_phase_fractal_result:
  assumes c: "0 < c" and nz: "\<exists>x\<in>set fractal_pattern. x \<noteq> 0"
  shows "\<exists>chunks.
           encode_phase_fractal audio fractal_pattern max_shift_ms (int c) = Inr (concat chunks) \<and>
           list_all2 (\<lambda>k chunk.
             length chunk = length (take c (drop (k * c) audio)) \<and>
             (length (take c (drop (k * c) audio)) \<noteq> c \<or> py_trunc ((max_shift_ms / 1000) * 44100) = 0
                \<longrightarrow> chunk = take c (drop (k * c) audio)))
             [0..<(length audio + c - 1) div c] chunks"
proof -
  obtain m where m: "0 < m"
     "encode_phase_fractal audio fractal_pattern max_shift_ms (int c) =
           encode_loop (int c) audio (map (\<lambda>x. np_true_divide x m) fractal_pattern)
             (py_trunc ((max_shift_ms / 1000) * 44100))
             (map (\<lambda>k. int (k * c)) [0..<(length audio + c - 1) div c]) []"
    using encode_phase_fractal_unfold[OF c nz] by blast
  define norm where "norm = map (\<lambda>x. np_true_divide x m) fractal_pattern"
  define mss where "mss = py_trunc ((max_shift_ms / 1000) * 44100)"
  have ne: "norm \<noteq> []" using nz by (auto simp: norm_def)
  have fin: "\<forall>v\<in>set norm. \<exists>r. v = Fin r"
    unfolding norm_def using m(1) by (intro normalised_finite) simp
  obtain chunks where chunks:
    "encode_loop (int c) audio norm mss (map (\<lambda>k. int (k * c)) [0..<(length audio + c - 1) div c]) [] =
             Inr (concat chunks)"
    "list_all2 (\<lambda>k chunk.
             encode_chunk (int c) audio norm mss (int (k * c)) = Inr chunk \<and>
             length chunk = length (take c (drop (k * c) audio)))
        [0..<(length audio + c - 1) div c] chunks"
    using encode_loop_finite[OF c ne fin] by blast
  have "list_all2 (\<lambda>k chunk.
             length chunk = length (take c (drop (k * c) audio)) \<and>
             (length (take c (drop (k * c) audio)) \<noteq> c \<or> mss = 0
                \<longrightarrow> chunk = take c (drop (k * c) audio)))
             [0..<(length audio + c - 1) div c] chunks"
    using chunks(2)
  proof (rule list_all2_mono)
    fix k chunk
    assume h: "encode_chunk (int c) audio norm mss (int (k * c)) = Inr chunk \<and>
             length chunk = length (take c (drop (k * c) audio))"
    have "chunk = take c (drop (k * c) audio)"
      if "length (take c (drop (k * c) audio)) \<noteq> c \<or> mss = 0"
      using that
    proof
      assume "length (take c (drop (k * c) audio)) \<noteq> c"
      then have "encode_chunk (int c) audio norm mss (int (k * c)) = Inr (take c (drop (k * c) audio))"
        by (rule encode_chunk_partial)
      with h show ?thesis by simp
    next
      assume "mss = 0"
      then show ?thesis using h encode_chunk_no_shift[OF ne fin, of c audio k] by simp
    qed
    with h show "length chunk = length (take c (drop (k * c) audio)) \<and>
             (length (take c (drop (k * c) audio)) \<noteq> c \<or> mss = 0
                \<longrightarrow> chunk = take c (drop (k * c) audio))" by blast
  qed
  with chunks(1) m(2) show ?thesis unfolding norm_def mss_def by auto
qed

lemma concat_all_slices:
  "0 < c \<Longrightarrow>
   concat (map (\<lambda>k. take c (drop (k * c) audio)) [0..<(length audio + c - 1) div c]) = audio"
  using concat_slices[of audio 0 "(length audio + c - 1) div c" c] ceil_div_covers[of c "length audio"]
  by simp


lemma list_all2_eq_map:
  "list_all2 (\<lambda>k chunk. chunk = f k) ks chunks \<Longrightarrow> chunks = map f ks"
  by (induction ks chunks rule: list_all2_induct) simp_all

lemma encode_phase_fractal_no_shift:
  assumes c: "0 < c" and nz: "\<exists>x\<in>set fractal_pattern. x \<noteq> 0"
    and z: "py_trunc ((max_shift_ms / 1000) * 44100) = 0"
  shows "encode_phase_fractal audio fractal_pattern max_shift_ms (int c) = Inr audio"
proof -
  obtain chunks where ch:
    "encode_phase_fractal audio fractal_pattern max_shift_ms (int c) = Inr (concat chunks)"
    "list_all2 (\<lambda>k chunk.
             length chunk = length (take c (drop (k * c) audio)) \<and>
             (length (take c (drop (k * c) audio)) \<noteq> c \<or> py_trunc ((max_shift_ms / 1000) * 44100) = 0
                \<longrightarrow> chunk = take c (drop (k * c) audio)))
             [0..<(length audio + c - 1) div c] chunks"
    using encode_phase_fractal_result[OF c nz] by blast
  from ch(2) have "list_all2 (\<lambda>k chunk. chunk = take c (drop (k * c) audio))
             [0..<(length audio + c - 1) div c] chunks"
    by (rule list_all2_mono) (use z in blast)
  then have "chunks = map (\<lambda>k. take c (drop (k * c) audio)) [0..<(length audio + c - 1) div c]"
    by (rule list_all2_eq_map)
  then have "concat chunks = audio" by (simp only: concat_all_slices[OF c])
  with ch(1) show ?thesis by simp
qed



section \<open>The encoder: degenerate inputs\<close>

lemma np_max_abs_nonzero:
  assumes "np_max_abs xs = Inr m" and "m \<noteq> 0"
  shows "\<exists>x\<in>set xs. x \<noteq> 0"
proof (rule ccontr)
  assume "\<not> (\<exists>x\<in>set xs. x \<noteq> 0)"
  then have z: "\<forall>x\<in>set xs. x = 0" by blast
  have "xs \<noteq> []" using assms(1) by (auto simp: np_max_abs_def)
  then have "np_max_abs xs = Inr 0" using z by (rule np_max_abs_zero)
  with assms show False by simp
qed






section \<open>Verification: numpy's coefficient is Pearson's\<close>
















lemma verify_encoding_equal_lengths:
  "length original = length encoded \<Longrightarrow>
   \<exists>r. verify_encoding self original encoded threshold = Inr r"
  by (simp add: verify_encoding_def np_corrcoef_01_def Let_def)

section \<open>The generator: claims\<close>

text \<open>
  C10. For every seed and every length \<open>n \<ge> 2\<close> the generator returns a pattern of
  length \<open>n\<close> whose last element (index \<open>n - 1\<close>) is exactly 0: the loops write only
  at indices \<open>i\<close> with \<open>i + step < n\<close>. For \<open>n = 2\<close> the pattern is the first draw followed
  by 0, so only element 0 can be nonzero. The first part holds for
  \<open>generate_fractal_pattern\<close> and, whenever the seed prefix parses as a hexadecimal
  number, for \<open>generate_audio_fractal_pattern\<close>.
\<close>

theorem generate_last_element_zero:
  assumes "2 \<le> len"
  shows "(\<exists>p. generate_fractal_pattern np py_hash seed len = Inr p \<and>
              length p = nat len \<and> p ! (nat len - 1) = 0) \<and>
         (\<forall>v. py_int16 (take 8 fractal_seed) = Inr v \<longrightarrow>
            (\<exists>p. generate_audio_fractal_pattern np py_int16 fractal_seed len = Inr p \<and>
                 length p = nat len \<and> p ! (nat len - 1) = 0)) \<and>
         (len = 2 \<longrightarrow>
            generate_fractal_pattern np py_hash seed len =
              Inr [fst (uniform np (- 1) 1 (RandomState np (nat (py_hash seed mod 2 ^ 32)))), 0])"
proof (intro conjI allI impI)
  show "\<exists>p. generate_fractal_pattern np py_hash seed len = Inr p \<and>
              length p = nat len \<and> p ! (nat len - 1) = 0"
    unfolding generate_fractal_pattern_def by (rule midpoint_fill_last_zero[OF assms])
next
  fix v assume v: "py_int16 (take 8 fractal_seed) = Inr v"
  show "\<exists>p. generate_audio_fractal_pattern np py_int16 fractal_seed len = Inr p \<and>
                 length p = nat len \<and> p ! (nat len - 1) = 0"
    unfolding generate_audio_fractal_pattern_def v sum.case
    by (rule midpoint_fill_last_zero[OF assms])
next
  assume two: "len = 2"
  show "generate_fractal_pattern np py_hash seed len =
          Inr [fst (uniform np (- 1) 1 (RandomState np (nat (py_hash seed mod 2 ^ 32)))), 0]"
    unfolding generate_fractal_pattern_def two by (rule midpoint_fill_2)
qed

theorem generate_last_element_zero_witness:
  "(2::int) \<le> 5 \<and>
   (\<exists>p. generate_fractal_pattern
          \<lparr>RandomState = (\<lambda>n. n), uniform = (\<lambda>lo hi s. (lo + (hi - lo) * (real (s mod 8) / 8), Suc s))\<rparr>
          (\<lambda>s. int (length s)) ''artist_fractal_seed_123'' 5 = Inr p \<and>
        length p = 5 \<and> p ! 4 = 0) \<and>
   (\<exists>p. generate_audio_fractal_pattern
          \<lparr>RandomState = (\<lambda>n. n), uniform = (\<lambda>lo hi s. (lo + (hi - lo) * (real (s mod 8) / 8), Suc s))\<rparr>
          (\<lambda>s. Inr (int (length s))) ''9f86d081884c7d65'' 5 = Inr p \<and>
        length p = 5 \<and> p ! 4 = 0) \<and>
   generate_fractal_pattern
     \<lparr>RandomState = (\<lambda>n. n), uniform = (\<lambda>lo hi s. (lo + (hi - lo) * (real (s mod 8) / 8), Suc s))\<rparr>
     (\<lambda>s. int (length s)) ''artist_fractal_seed_123'' 2 = Inr [3 / 4, 0] \<and>
   generate_fractal_pattern
     \<lparr>RandomState = (\<lambda>n. n), uniform = (\<lambda>lo hi s. (lo + (hi - lo) * (real (s mod 8) / 8), Suc s))\<rparr>
     (\<lambda>s. int (length s)) ''artist_fractal_seed_123'' 5 = Inr [3 / 4, - 5 / 16, - 5 / 8, - 9 / 16, 0]"
proof -
  let ?np = "\<lparr>RandomState = (\<lambda>n. n), uniform = (\<lambda>lo hi s. (lo + (hi - lo) * (real (s mod 8) / 8), Suc s))\<rparr>"
  have five: "(2::int) \<le> 5" and two: "(2::int) \<le> 2" by simp_all
  have a: "\<exists>p. generate_fractal_pattern ?np (\<lambda>s. int (length s)) ''artist_fractal_seed_123'' 5 = Inr p \<and>
        length p = 5 \<and> p ! 4 = 0"
    using generate_last_element_zero
      [OF five, of ?np "\<lambda>s. int (length s)" "''artist_fractal_seed_123''" "\<lambda>s. Inr (int (length s))" "''9f86d081884c7d65''"]
    by simp
  have b: "\<exists>p. generate_audio_fractal_pattern ?np (\<lambda>s. Inr (int (length s))) ''9f86d081884c7d65'' 5 = Inr p \<and>
        length p = 5 \<and> p ! 4 = 0"
    using generate_last_element_zero
      [OF five, of ?np "\<lambda>s. int (length s)" "''artist_fractal_seed_123''" "\<lambda>s. Inr (int (length s))" "''9f86d081884c7d65''"]
    by simp
  have c: "generate_fractal_pattern ?np (\<lambda>s. int (length s)) ''artist_fractal_seed_123'' 2 = Inr [3 / 4, 0]"
    using generate_last_element_zero
      [OF two, of ?np "\<lambda>s. int (length s)" "''artist_fractal_seed_123''" "\<lambda>s. Inr (int (length s))" "''9f86d081884c7d65''"]
    by simp
  have d: "generate_fractal_pattern ?np (\<lambda>s. int (length s)) ''artist_fractal_seed_123'' 5 =
           Inr [3 / 4, - 5 / 16, - 5 / 8, - 9 / 16, 0]"
    by code_simp
  show ?thesis using five a b c d by blast
qed

text \<open>
  C3. For every seed and every length \<open>n \<ge> 2\<close>, \<open>generate_fractal_pattern\<close> returns
  exactly the sequence of the midpoint-displacement algorithm as the specification words
  it: a zero sequence of length \<open>n\<close> with element 0 drawn uniformly from \<open>[-1, 1]\<close>,
  then, from \<open>step = n div 2\<close> and \<open>scale = 1\<close> while \<open>step > 0\<close>, each index
  \<open>i = step, 3 step, 5 step, \<dots>\<close> below \<open>n\<close> with \<open>i + step < n\<close> set to the average of
  its two neighbours at distance \<open>step\<close> plus a draw from \<open>[-scale, scale]\<close>, then
  \<open>step\<close> and \<open>scale\<close> halved; the draws are made in the same order from the same
  generator state.
\<close>

theorem generate_follows_midpoint_displacement:
  assumes "2 \<le> len"
  shows "generate_fractal_pattern np py_hash seed len =
         Inr (spec_generate np (RandomState np (nat (py_hash seed mod 2 ^ 32))) (nat len))"
  unfolding generate_fractal_pattern_def
  using assms by (intro midpoint_fill_eq_spec) simp

theorem generate_follows_midpoint_displacement_witness:
  "(2::int) \<le> 8 \<and>
   generate_fractal_pattern
     \<lparr>RandomState = (\<lambda>n. n), uniform = (\<lambda>lo hi s. (lo + (hi - lo) * (real (s mod 8) / 8), Suc s))\<rparr>
     (\<lambda>s. int (length s)) ''artist_fractal_seed_123'' 8 =
   Inr (spec_generate
     \<lparr>RandomState = (\<lambda>n. n), uniform = (\<lambda>lo hi s. (lo + (hi - lo) * (real (s mod 8) / 8), Suc s))\<rparr>
     23 8) \<and>
   spec_generate
     \<lparr>RandomState = (\<lambda>n. n), uniform = (\<lambda>lo hi s. (lo + (hi - lo) * (real (s mod 8) / 8), Suc s))\<rparr>
     23 8 = [3 / 4, 1 / 8, - 1 / 8, - 3 / 16, 0, - 1 / 16, 0, 0]"
proof -
  let ?np = "\<lparr>RandomState = (\<lambda>n. n), uniform = (\<lambda>lo hi s. (lo + (hi - lo) * (real (s mod 8) / 8), Suc s))\<rparr>"
  have eight: "(2::int) \<le> 8" by simp
  have a: "generate_fractal_pattern ?np (\<lambda>s. int (length s)) ''artist_fractal_seed_123'' 8 =
           Inr (spec_generate ?np 23 8)"
    using generate_follows_midpoint_displacement
      [OF eight, of ?np "\<lambda>s. int (length s)" "''artist_fractal_seed_123''"]
    by simp
  have b: "spec_generate ?np 23 8 = [3 / 4, 1 / 8, - 1 / 8, - 3 / 16, 0, - 1 / 16, 0, 0]"
    by code_simp
  show ?thesis using eight a b by blast
qed

section \<open>The encoder: claims\<close>



text \<open>
  C5. Encoding at zero strength is the identity: for every audio buffer and every pattern
  whose maximum absolute value is nonzero, an encoder with a positive chunk size returns
  the input buffer itself, sample for sample, because every shift is 0 and
  \<open>apply_phase_shift\<close> then returns its chunk without any transform.
\<close>

theorem encode_audio_zero_strength:
  assumes "0 < chunk_size self" and "np_max_abs fractal_pattern = Inr m" and "m \<noteq> 0"
  shows "encode_audio self audio_data fractal_pattern (Some 0) = Inr audio_data"
proof -
  have c: "0 < nat (chunk_size self)" and cs: "chunk_size self = int (nat (chunk_size self))"
    using assms(1) by simp_all
  have nz: "\<exists>x\<in>set fractal_pattern. x \<noteq> 0"
    using assms(2,3) by (rule np_max_abs_nonzero)
  have z: "py_trunc ((0 / 1000) * 44100) = 0" by (simp add: py_trunc_def)
  show ?thesis
    unfolding encode_audio_as_encode_phase_fractal option.case
    by (subst cs) (rule encode_phase_fractal_no_shift[OF c nz z])
qed

theorem encode_audio_zero_strength_witness:
  "0 < chunk_size init \<and> np_max_abs [1 / 2, - 1, 0] = Inr 1 \<and> (1::real) \<noteq> 0 \<and>
   encode_audio init (replicate 5000 (1 / 4)) [1 / 2, - 1, 0] (Some 0) = Inr (replicate 5000 (1 / 4))"
proof -
  have a: "0 < chunk_size init" by (simp add: init_def)
  have b: "np_max_abs [1 / 2, - 1, 0] = Inr 1" by (simp add: np_max_abs_def)
  have c: "(1::real) \<noteq> 0" by simp
  show ?thesis
    using a b c encode_audio_zero_strength[OF a b c, of "replicate 5000 (1 / 4)"] by simp
qed









section \<open>Verification: claims\<close>




text \<open>
  C2. The claim asks for a seed-specific detector: detection run against the pattern of
  another seed must not report \<open>detected = true\<close>. The detector of the code takes neither
  a seed nor a pattern and answers True for every buffer, so \<open>verify_encoding\<close> reports
  \<open>encoding_detected = True\<close> whenever it returns, and \<open>meets_standards\<close> is just
  \<open>audio_preserved\<close>.
\<close>

theorem detect_fractal_pattern_always_true:
  "detect_fractal_pattern self audio_data \<and>
   (verify_encoding self original encoded threshold = Inl ValueError \<or>
    (\<exists>r. verify_encoding self original encoded threshold = Inr r \<and>
         encoding_detected r \<and> meets_standards r = audio_preserved r))"
proof -
  have "detect_fractal_pattern self audio_data" by (simp add: detect_fractal_pattern_def)
  moreover have "verify_encoding self original encoded threshold = Inl ValueError \<or>
    (\<exists>r. verify_encoding self original encoded threshold = Inr r \<and>
         encoding_detected r \<and> meets_standards r = audio_preserved r)"
  proof (cases "np_corrcoef_01 original encoded")
    case (Inl e)
    then have "e = ValueError" by (simp add: np_corrcoef_01_def split: if_splits)
    with Inl show ?thesis by (simp add: verify_encoding_def)
  next
    case (Inr corr)
    then show ?thesis by (simp add: verify_encoding_def Let_def detect_fractal_pattern_def)
  qed
  ultimately show ?thesis by simp
qed

theorem detect_fractal_pattern_always_true_witness:
  "detect_fractal_pattern init [1, 2, 4] \<and>
   (\<exists>r. verify_encoding init [1, 2, 3] [1, 2, 4] (99 / 100) = Inr r \<and> encoding_detected r)"
proof -
  have "length [1, 2, 3 :: real] = length [1, 2, 4 :: real]" by simp
  then obtain r0 where "verify_encoding init [1, 2, 3] [1, 2, 4] (99 / 100) = Inr r0"
    using verify_encoding_equal_lengths by blast
  then show ?thesis
    using detect_fractal_pattern_always_true[of init "[1, 2, 4]" "[1, 2, 3]" "[1, 2, 4]" "99 / 100"]
    by auto
qed

section \<open>The generator: reproducibility\<close>

lemma while_step_first_element:
  "fst (while_step np len step scale st) ! 0 = fst st ! 0"
proof (rule while_step_invariant[where P = "\<lambda>s. fst s ! 0 = fst st ! 0"], goal_cases)
  case (1 step scale i s)
  then have "0 \<noteq> i" by simp
  with 1 show ?case by (simp add: assign_midpoint_other)
next
  case 2
  show ?case by simp
qed

lemma midpoint_fill_first_element:
  assumes "1 \<le> len"
  shows "\<exists>p. midpoint_fill np rng len = Inr p \<and> p ! 0 = fst (uniform np (- 1) 1 rng)"
proof -
  obtain u rng1 where U: "uniform np (- 1) 1 rng = (u, rng1)"
    by (cases "uniform np (- 1) 1 rng")
  let ?st = "((replicate (nat len) (0::real))[0 := u], rng1)"
  have "fst (while_step np (nat len) (nat len div 2) 1 ?st) ! 0 = fst ?st ! 0"
    by (rule while_step_first_element)
  moreover have "fst ?st ! 0 = u" using assms by simp
  moreover have "midpoint_fill np rng len = Inr (fst (while_step np (nat len) (nat len div 2) 1 ?st))"
    using assms U by (simp add: midpoint_fill_def)
  ultimately show ?thesis using U by simp
qed

text \<open>
  C1. The claim asks that the same seed give the same pattern on every call, in every
  run and on every platform, through a stable hash of the seed. In the code the pattern
  is a function of \<open>hash(seed) mod 2^32\<close>: two calls under the same \<open>hash\<close> agree, but
  \<open>hash\<close> of a string depends on the interpreter process, and whenever the hashes of two
  processes seed generators whose first draws differ, the two patterns differ (element 0
  is that first draw).
\<close>

theorem generate_depends_on_process_hash:
  "(py_hash1 seed mod 2 ^ 32 = py_hash2 seed mod 2 ^ 32 \<longrightarrow>
      generate_fractal_pattern np py_hash1 seed len = generate_fractal_pattern np py_hash2 seed len) \<and>
   (1 \<le> len \<and>
    fst (uniform np (- 1) 1 (RandomState np (nat (py_hash1 seed mod 2 ^ 32)))) \<noteq>
    fst (uniform np (- 1) 1 (RandomState np (nat (py_hash2 seed mod 2 ^ 32)))) \<longrightarrow>
      generate_fractal_pattern np py_hash1 seed len \<noteq> generate_fractal_pattern np py_hash2 seed len)"
proof (intro conjI impI)
  assume "py_hash1 seed mod 2 ^ 32 = py_hash2 seed mod 2 ^ 32"
  then show "generate_fractal_pattern np py_hash1 seed len = generate_fractal_pattern np py_hash2 seed len"
    by (simp add: generate_fractal_pattern_def)
next
  assume h: "1 \<le> len \<and>
    fst (uniform np (- 1) 1 (RandomState np (nat (py_hash1 seed mod 2 ^ 32)))) \<noteq>
    fst (uniform np (- 1) 1 (RandomState np (nat (py_hash2 seed mod 2 ^ 32))))"
  then have len: "1 \<le> len" by simp
  obtain p1 where p1: "generate_fractal_pattern np py_hash1 seed len = Inr p1"
      "p1 ! 0 = fst (uniform np (- 1) 1 (RandomState np (nat (py_hash1 seed mod 2 ^ 32))))"
    unfolding generate_fractal_pattern_def
    using midpoint_fill_first_element[OF len, of np "RandomState np (nat (py_hash1 seed mod 2 ^ 32))"]
    by blast
  obtain p2 where p2: "generate_fractal_pattern np py_hash2 seed len = Inr p2"
      "p2 ! 0 = fst (uniform np (- 1) 1 (RandomState np (nat (py_hash2 seed mod 2 ^ 32))))"
    unfolding generate_fractal_pattern_def
    using midpoint_fill_first_element[OF len, of np "RandomState np (nat (py_hash2 seed mod 2 ^ 32))"]
    by blast
  have "p1 ! 0 \<noteq> p2 ! 0" unfolding p1(2) p2(2) using h by (rule conjunct2)
  then have "p1 \<noteq> p2" by (rule contrapos_nn) (rule arg_cong[where f = "\<lambda>p. p ! 0"])
  then show "generate_fractal_pattern np py_hash1 seed len \<noteq> generate_fractal_pattern np py_hash2 seed len"
    using p1(1) p2(1) by simp
qed

theorem generate_depends_on_process_hash_witness:
  "generate_fractal_pattern
     \<lparr>RandomState = (\<lambda>n. n), uniform = (\<lambda>lo hi s. (lo + (hi - lo) * (real (s mod 8) / 8), Suc s))\<rparr>
     (\<lambda>s. int (length s)) ''artist_fractal_seed_123'' 100 \<noteq>
   generate_fractal_pattern
     \<lparr>RandomState = (\<lambda>n. n), uniform = (\<lambda>lo hi s. (lo + (hi - lo) * (real (s mod 8) / 8), Suc s))\<rparr>
     (\<lambda>s. int (length s) + 1) ''artist_fractal_seed_123'' 100 \<and>
   generate_fractal_pattern
     \<lparr>RandomState = (\<lambda>n. n), uniform = (\<lambda>lo hi s. (lo + (hi - lo) * (real (s mod 8) / 8), Suc s))\<rparr>
     (\<lambda>s. int (length s)) ''artist_fractal_seed_123'' 100 =
   generate_fractal_pattern
     \<lparr>RandomState = (\<lambda>n. n), uniform = (\<lambda>lo hi s. (lo + (hi - lo) * (real (s mod 8) / 8), Suc s))\<rparr>
     (\<lambda>s. int (length s) + 2 ^ 32) ''artist_fractal_seed_123'' 100"
proof -
  let ?np = "\<lparr>RandomState = (\<lambda>n. n), uniform = (\<lambda>lo hi s. (lo + (hi - lo) * (real (s mod 8) / 8), Suc s))\<rparr>"
  let ?seed = "''artist_fractal_seed_123''"
  have a: "(1::int) \<le> 100 \<and>
    fst (uniform ?np (- 1) 1 (RandomState ?np (nat (int (length ?seed) mod 2 ^ 32)))) \<noteq>
    fst (uniform ?np (- 1) 1 (RandomState ?np (nat ((int (length ?seed) + 1) mod 2 ^ 32))))"
    by simp
  have b: "int (length ?seed) mod 2 ^ 32 = (int (length ?seed) + 2 ^ 32) mod 2 ^ 32"
    by simp
  show ?thesis
    using generate_depends_on_process_hash
        [of "\<lambda>s. int (length s)" ?seed "\<lambda>s. int (length s) + 1" ?np 100]
      generate_depends_on_process_hash
        [of "\<lambda>s. int (length s)" ?seed "\<lambda>s. int (length s) + 2 ^ 32" ?np 100]
      a b
    by blast
qed

section \<open>The default strength\<close>

text \<open>
  With the default strength of \<open>__init__\<close> (0.01 ms) the shift bound is
  \<open>int(0.01 / 1000 * 44100) = int(0.441) = 0\<close>: every chunk gets a zero shift and
  \<open>encode_audio\<close>, called without a strength, returns its input unchanged.
\<close>

theorem encode_audio_default_strength:
  assumes "np_max_abs fractal_pattern = Inr m" and "m \<noteq> 0"
  shows "encode_audio init audio_data fractal_pattern None = Inr audio_data"
proof -
  have c: "0 < (2048::nat)" by simp
  have nz: "\<exists>x\<in>set fractal_pattern. x \<noteq> 0"
    using assms by (rule np_max_abs_nonzero)
  have z: "py_trunc (((1 / 100) / 1000) * 44100) = 0" by (simp add: py_trunc_def)
  have "encode_phase_fractal audio_data fractal_pattern (1 / 100) (int 2048) = Inr audio_data"
    by (rule encode_phase_fractal_no_shift[OF c nz z])
  then show ?thesis
    unfolding encode_audio_as_encode_phase_fractal by (simp add: init_def)
qed

theorem encode_audio_default_strength_witness:
  "np_max_abs [1 / 2, - 1, 0] = Inr 1 \<and> (1::real) \<noteq> 0 \<and>
   encode_audio init (replicate 5000 (1 / 4)) [1 / 2, - 1, 0] None = Inr (replicate 5000 (1 / 4))"
proof -
  have b: "np_max_abs [1 / 2, - 1, 0] = Inr 1" by (simp add: np_max_abs_def)
  have c: "(1::real) \<noteq> 0" by simp
  show ?thesis
    using b c encode_audio_default_strength[OF b c, of "replicate 5000 (1 / 4)"] by simp
qed

end
